theory Spec2Isabelle
  imports Main "HOL-Library.Word"
begin

section \<open>Machine types and Go values\<close>

text \<open>
  The package is Go with cgo, modelled for a 64-bit target: Go's \<open>int\<close> is a 64-bit
  two's-complement word (compared with \<open><s\<close>, shifted with \<open>signed_drop_bit\<close>, \<open>+\<close> and
  \<open>*\<close> wrap), C's \<open>size_t\<close> and \<open>unsigned long long\<close> are unsigned 64-bit words and
  C's \<open>int\<close> is a 32-bit word. The conversions \<open>int(x)\<close> and \<open>C.size_t(x)\<close> between
  64-bit types keep the bits; \<open>C.int(level)\<close> keeps the low 32 bits (\<open>ucast\<close>).
  Lengths and capacities of slices are natural numbers (Go keeps them in \<open>[0, 2^63)\<close>);
  they enter word arithmetic through \<open>of_nat\<close>.
\<close>

type_synonym byte = "8 word"
type_synonym goint = "64 word"
type_synonym size_t = "64 word"
type_synonym ull = "64 word"
type_synonym cint = "32 word"
type_synonym cuint = "32 word"

definition BestSpeed :: goint where
  "BestSpeed = 1"

definition BestCompression :: goint where
  "BestCompression = 20"

definition DefaultCompression :: goint where
  "DefaultCompression = 5"

definition decompressSizeBufferLimit :: goint where
  "decompressSizeBufferLimit = 1000 * 1000"

definition zstdFrameHeaderSizeMin :: nat where
  "zstdFrameHeaderSizeMin = 2"

text \<open>
  A byte slice used as a destination: \<open>Slice a n\<close> has the backing array \<open>a\<close> from the
  slice's first element to its capacity, and length \<open>n\<close>; \<open>NilSlice\<close> is \<open>nil\<close>.
  A source slice is only read, so it is the list of its elements.
\<close>

datatype slice = NilSlice | Slice "byte list" nat

fun cap_s :: "slice \<Rightarrow> nat" where
  "cap_s NilSlice = 0"
| "cap_s (Slice a n) = length a"

fun len_s :: "slice \<Rightarrow> nat" where
  "len_s NilSlice = 0"
| "len_s (Slice a n) = n"

fun elems :: "slice \<Rightarrow> byte list" where
  "elems NilSlice = []"
| "elems (Slice a n) = take n a"

text \<open>The run-time panics of the Go operations the package uses.\<close>

datatype panic = IndexOutOfRange | SliceBoundsOutOfRange | MakesliceLenOutOfRange

text \<open>\<open>make([]byte, n)\<close>: a zeroed slice of length and capacity \<open>n\<close>; memory is not bounded.\<close>

definition make_bytes :: "int \<Rightarrow> panic + slice" where
  "make_bytes n = (if n < 0 then Inl MakesliceLenOutOfRange
             else Inr (Slice (replicate (nat n) 0) (nat n)))"

text \<open>\<open>s[0:hi]\<close> and \<open>s[:hi]\<close>: the bound is checked against the capacity.\<close>

definition slice_to :: "slice \<Rightarrow> int \<Rightarrow> panic + slice" where
  "slice_to s hi =
     (if hi < 0 \<or> int (cap_s s) < hi then Inl SliceBoundsOutOfRange
      else Inr (case s of NilSlice \<Rightarrow> NilSlice | Slice a n \<Rightarrow> Slice a (nat hi)))"

text \<open>
  An \<open>unsafe.Pointer\<close> handed to C: \<open>NullPtr\<close>, or the address of the first element of
  a buffer, carried with the bytes that the slice holds there. \<open>&s[0]\<close> is bounds-checked
  against the length of \<open>s\<close>.
\<close>

datatype ptr = NullPtr | Ptr "byte list"

definition addr0 :: "byte list \<Rightarrow> panic + ptr" where
  "addr0 xs = (if xs = [] then Inl IndexOutOfRange else Inr (Ptr xs))"

text \<open>
  What a native call leaves in the destination: the bytes \<open>out\<close> it wrote from the first
  element on (writes past the backing array are not modelled).
\<close>

fun store :: "slice \<Rightarrow> byte list \<Rightarrow> slice" where
  "store NilSlice out = NilSlice"
| "store (Slice a n) out = Slice (take (length a) (out @ drop (length out) a)) n"

section \<open>Errors, the native library and the rest of the package\<close>

text \<open>
  \<open>ErrEmptySlice\<close> is the package variable, \<open>Errorf\<close> an error built by \<open>fmt.Errorf\<close>;
  \<open>External\<close> stands for the error values built by the parts of the package that are
  not in this file (\<open>getError\<close>, the streaming reader).
\<close>

datatype 'e error = ErrEmptySlice | Errorf string | External 'e

type_synonym cctx = nat

text \<open>
  The collaborators of this file. The \<open>ZSTD_\<close> fields are the functions of the native
  library: each takes the C arguments and returns its result, with the bytes it wrote to
  the destination where it has one. \<open>scrollCParams\<close> is the package variable holding the
  compression context that \<open>init\<close> creates. \<open>getError\<close> and
  \<open>IsDstSizeTooSmallError\<close> are the package's error classifier and its predicate, and
  \<open>readAllReader src\<close> is \<open>ioutil.ReadAll(NewReader(bytes.NewReader(src)))\<close>; their
  code is in other files of the package, so they are parameters here.
\<close>

record 'e env =
  ZSTD_compress :: "ptr \<Rightarrow> size_t \<Rightarrow> ptr \<Rightarrow> size_t \<Rightarrow> cint \<Rightarrow> size_t \<times> byte list"
  ZSTD_decompress :: "ptr \<Rightarrow> size_t \<Rightarrow> ptr \<Rightarrow> size_t \<Rightarrow> size_t \<times> byte list"
  ZSTD_compress2 :: "cctx \<Rightarrow> ptr \<Rightarrow> size_t \<Rightarrow> ptr \<Rightarrow> size_t \<Rightarrow> size_t \<times> byte list"
  ZSTD_getFrameContentSize :: "ptr \<Rightarrow> size_t \<Rightarrow> ull"
  ZSTD_isError :: "size_t \<Rightarrow> cuint"
  ZSTD_getErrorName :: "size_t \<Rightarrow> string"
  scrollCParams :: cctx
  getError :: "goint \<Rightarrow> 'e error option"
  IsDstSizeTooSmallError :: "'e error option \<Rightarrow> bool"
  readAllReader :: "byte list \<Rightarrow> slice \<times> 'e error option"

section \<open>Native calls as effects\<close>

text \<open>
  A function of the package returns the list of native calls it issued, in order, and
  either the panic that stopped it or its result.
\<close>

datatype native_call =
    Call_compress ptr size_t ptr size_t cint
  | Call_decompress ptr size_t ptr size_t
  | Call_compress2 cctx ptr size_t ptr size_t
  | Call_getFrameContentSize ptr size_t
  | Call_isError size_t
  | Call_getErrorName size_t

type_synonym 'a io = "native_call list \<times> (panic + 'a)"

definition ret :: "'a \<Rightarrow> 'a io" where
  "ret x = ([], Inr x)"

definition lift :: "panic + 'a \<Rightarrow> 'a io" where
  "lift r = ([], r)"

definition call :: "native_call \<Rightarrow> 'a \<Rightarrow> 'a io" where
  "call c x = ([c], Inr x)"

definition bind :: "'a io \<Rightarrow> ('a \<Rightarrow> 'b io) \<Rightarrow> 'b io" where
  "bind m f =
     (case m of
        (t, Inl p) \<Rightarrow> (t, Inl p)
      | (t, Inr x) \<Rightarrow> (case f x of (t', r) \<Rightarrow> (t @ t', r)))"

definition C_ZSTD_compress ::
  "'e env \<Rightarrow> ptr \<Rightarrow> size_t \<Rightarrow> ptr \<Rightarrow> size_t \<Rightarrow> cint \<Rightarrow> (size_t \<times> byte list) io" where
  "C_ZSTD_compress env dst dstCapacity src srcSize level =
     call (Call_compress dst dstCapacity src srcSize level)
       (ZSTD_compress env dst dstCapacity src srcSize level)"

definition C_ZSTD_decompress ::
  "'e env \<Rightarrow> ptr \<Rightarrow> size_t \<Rightarrow> ptr \<Rightarrow> size_t \<Rightarrow> (size_t \<times> byte list) io" where
  "C_ZSTD_decompress env dst dstCapacity src srcSize =
     call (Call_decompress dst dstCapacity src srcSize)
       (ZSTD_decompress env dst dstCapacity src srcSize)"

definition C_ZSTD_compress2 ::
  "'e env \<Rightarrow> cctx \<Rightarrow> ptr \<Rightarrow> size_t \<Rightarrow> ptr \<Rightarrow> size_t \<Rightarrow> (size_t \<times> byte list) io" where
  "C_ZSTD_compress2 env cctx dst dstCapacity src srcSize =
     call (Call_compress2 cctx dst dstCapacity src srcSize)
       (ZSTD_compress2 env cctx dst dstCapacity src srcSize)"

definition C_ZSTD_getFrameContentSize :: "'e env \<Rightarrow> ptr \<Rightarrow> size_t \<Rightarrow> ull io" where
  "C_ZSTD_getFrameContentSize env src srcSize =
     call (Call_getFrameContentSize src srcSize) (ZSTD_getFrameContentSize env src srcSize)"

definition C_ZSTD_isError :: "'e env \<Rightarrow> size_t \<Rightarrow> cuint io" where
  "C_ZSTD_isError env code = call (Call_isError code) (ZSTD_isError env code)"

definition C_ZSTD_getErrorName :: "'e env \<Rightarrow> size_t \<Rightarrow> string io" where
  "C_ZSTD_getErrorName env code = call (Call_getErrorName code) (ZSTD_getErrorName env code)"

section \<open>The functions of zstd.go\<close>

definition CompressBound :: "goint \<Rightarrow> goint" where
  "CompressBound srcSize =
     (let lowLimit = push_bit 10 128;
          margin = (if srcSize <s lowLimit then signed_drop_bit 11 (lowLimit - srcSize) else 0)
      in srcSize + signed_drop_bit 8 srcSize + margin)"

text \<open>
  Modelled from the spec: \<open>ZSTD_compressBound\<close> of the native library, which
  \<open>cCompressBound\<close> calls and whose code is not in this file. The spec gives the native
  reference bound as the formula \<open>srcSize + (srcSize >> 8) + margin\<close> with
  \<open>margin = (131072 - srcSize) >> 11\<close> below 131072 and 0 otherwise; it is computed here
  as C does, on the unsigned \<open>size_t\<close>.
\<close>

definition ZSTD_compressBound :: "size_t \<Rightarrow> size_t" where
  "ZSTD_compressBound srcSize =
     srcSize + drop_bit 8 srcSize
       + (if srcSize < 131072 then drop_bit 11 (131072 - srcSize) else 0)"

definition cCompressBound :: "goint \<Rightarrow> goint" where
  "cCompressBound srcSize = ZSTD_compressBound srcSize"

definition decompressSizeHint :: "'e env \<Rightarrow> byte list \<Rightarrow> goint io" where
  "decompressSizeHint env src =
     (let upperBound = 10 * of_nat (length src);
          upperBound = (if upperBound <s decompressSizeBufferLimit
                        then decompressSizeBufferLimit else upperBound)
      in bind
           (if zstdFrameHeaderSizeMin \<le> length src
            then bind (lift (addr0 src)) (\<lambda>sp.
                 bind (C_ZSTD_getFrameContentSize env sp (of_nat (length src))) (\<lambda>hint.
                 let hint = (if hint <s 0 then upperBound else hint);
                     hint = (if hint = 0 then 1 else hint)
                 in ret hint))
            else ret upperBound)
           (\<lambda>hint. ret (if upperBound <s hint then upperBound else hint)))"

definition checkError :: "'e env \<Rightarrow> size_t \<Rightarrow> 'e error option io" where
  "checkError env code =
     bind (C_ZSTD_isError env code) (\<lambda>r.
       if r \<noteq> 0
       then bind (C_ZSTD_getErrorName env code) (\<lambda>name.
              ret (Some (Errorf (''zstd error: '' @ name))))
       else ret None)"

definition CompressScrollBatchBytes :: "'e env \<Rightarrow> byte list \<Rightarrow> (slice \<times> 'e error option) io" where
  "CompressScrollBatchBytes env src =
     (if length src = 0 then ret (Slice [] 0, None)
      else bind (lift (make_bytes (int (length src)))) (\<lambda>dst.
           bind (lift (addr0 (elems dst))) (\<lambda>dp.
           bind (lift (addr0 src)) (\<lambda>sp.
           bind (C_ZSTD_compress2 env (scrollCParams env)
                   dp (of_nat (len_s dst)) sp (of_nat (length src))) (\<lambda>(result, out).
           let dst = store dst out
           in bind (checkError env result) (\<lambda>err.
                case err of
                  Some e \<Rightarrow> ret (NilSlice, Some e)
                | None \<Rightarrow> bind (lift (slice_to dst (uint result))) (\<lambda>d. ret (d, None))))))))"

definition CompressLevel ::
  "'e env \<Rightarrow> slice \<Rightarrow> byte list \<Rightarrow> goint \<Rightarrow> (slice \<times> 'e error option) io" where
  "CompressLevel env dst src level =
     (let bound = CompressBound (of_nat (length src))
      in bind (lift (if sint bound \<le> int (cap_s dst) then slice_to dst (sint bound)
                     else make_bytes (sint bound))) (\<lambda>dst.
         bind (if length src = 0
               then bind (lift (addr0 (elems dst))) (\<lambda>dp.
                      C_ZSTD_compress env dp (of_nat (len_s dst)) NullPtr 0 (ucast level))
               else bind (lift (addr0 (elems dst))) (\<lambda>dp.
                    bind (lift (addr0 src)) (\<lambda>sp.
                      C_ZSTD_compress env dp (of_nat (len_s dst)) sp (of_nat (length src))
                        (ucast level)))) (\<lambda>(cWritten, out).
         let dst = store dst out;
             written = cWritten
         in case getError env written of
              Some e \<Rightarrow> ret (NilSlice, Some e)
            | None \<Rightarrow> bind (lift (slice_to dst (sint written))) (\<lambda>d. ret (d, None)))))"

definition Compress :: "'e env \<Rightarrow> slice \<Rightarrow> byte list \<Rightarrow> (slice \<times> 'e error option) io" where
  "Compress env dst src = CompressLevel env dst src DefaultCompression"

text \<open>
  \<open>DecompressInto\<close> returns \<open>(written, err)\<close>; the destination it wrote to is returned
  with them.
\<close>

definition DecompressInto ::
  "'e env \<Rightarrow> slice \<Rightarrow> byte list \<Rightarrow> (slice \<times> goint \<times> 'e error option) io" where
  "DecompressInto env dst src =
     bind (lift (addr0 (elems dst))) (\<lambda>dp.
     bind (lift (addr0 src)) (\<lambda>sp.
     bind (C_ZSTD_decompress env dp (of_nat (len_s dst)) sp (of_nat (length src)))
       (\<lambda>(code, out).
     let written = code
     in ret (store dst out, written, getError env written))))"

definition Decompress :: "'e env \<Rightarrow> slice \<Rightarrow> byte list \<Rightarrow> (slice \<times> 'e error option) io" where
  "Decompress env dst src =
     (if length src = 0 then ret (Slice [] 0, Some ErrEmptySlice)
      else bind (decompressSizeHint env src) (\<lambda>bound.
           bind (lift (if sint bound \<le> int (cap_s dst) then slice_to dst (int (cap_s dst))
                       else make_bytes (sint bound))) (\<lambda>dst.
           bind (DecompressInto env dst src) (\<lambda>(dst, written, err).
           if err = None then bind (lift (slice_to dst (sint written))) (\<lambda>d. ret (d, None))
           else if \<not> IsDstSizeTooSmallError env err then ret (NilSlice, err)
           else ret (readAllReader env src)))))"

section \<open>The formulas of the specification\<close>

text \<open>The bound of the specification, on unbounded integers.\<close>

definition bound_formula :: "int \<Rightarrow> int" where
  "bound_formula n = n + n div 2 ^ 8 + (if n < 131072 then (131072 - n) div 2 ^ 11 else 0)"

text \<open>
  The size hint of the specification, on unbounded integers: \<open>n\<close> is the length of the
  source and \<open>declared\<close> the signed size that the frame reader reports, negative when the
  read fails or the size is unknown.
\<close>

definition hint_spec :: "nat \<Rightarrow> int \<Rightarrow> int" where
  "hint_spec n declared =
     (let upperBound = max (10 * int n) 1000000;
          declaredOrFallback =
            (if 2 \<le> n \<and> 0 \<le> declared then (if declared = 0 then 1 else declared)
             else upperBound)
      in min declaredOrFallback upperBound)"

section \<open>The contract of the collaborators\<close>

text \<open>
  What the round trip asks of the native library, the classifier and the streaming reader;
  \<open>frame c s\<close> reads "\<open>c\<close> is a frame of the payload \<open>s\<close>". Buffers are Go slices, so
  their lengths are below \<open>2^63\<close>.
  \<^item> One-shot compression at a level from 1 to 20, into a destination at least as large as
    the compression bound, is not an error and writes a non-empty frame of the payload,
    whose length it returns.
  \<^item> One-shot decompression of a frame into a non-empty destination writes the payload and
    returns its length when the destination can hold it, and otherwise returns an error
    that the classifier reports and the predicate recognises as "destination too small".
  \<^item> Draining the streaming reader over a frame yields the payload and no error.
\<close>

definition codec_contract :: "'e env \<Rightarrow> (byte list \<Rightarrow> byte list \<Rightarrow> bool) \<Rightarrow> bool" where
  "codec_contract env frame \<longleftrightarrow>
     (\<forall>s buf level.
        1 \<le> sint level \<and> sint level \<le> 20
          \<and> bound_formula (int (length s)) \<le> int (length buf) \<and> int (length buf) < 2 ^ 63 \<longrightarrow>
        (case ZSTD_compress env (Ptr buf) (of_nat (length buf))
                (if s = [] then NullPtr else Ptr s) (of_nat (length s)) level of
           (n, out) \<Rightarrow>
             getError env n = None \<and> 0 < sint n \<and> sint n \<le> int (length buf)
               \<and> int (length out) = sint n \<and> frame out s))
     \<and> (\<forall>c s buf.
        frame c s \<and> int (length c) < 2 ^ 63 \<and> buf \<noteq> [] \<and> int (length buf) < 2 ^ 63 \<longrightarrow>
        (case ZSTD_decompress env (Ptr buf) (of_nat (length buf)) (Ptr c) (of_nat (length c)) of
           (n, out) \<Rightarrow>
             if length s \<le> length buf
             then n = of_nat (length s) \<and> out = s \<and> getError env n = None
             else getError env n \<noteq> None \<and> IsDstSizeTooSmallError env (getError env n)))
     \<and> (\<forall>c s.
        frame c s \<longrightarrow>
        (case readAllReader env c of (d, err) \<Rightarrow> err = None \<and> elems d = s))"

section \<open>A small instance of the collaborators\<close>

text \<open>
  A concrete library and error classifier, on which the functions above can be run: a
  frame is the byte 40 followed by the stored payload, the batch format is the payload
  alone, levels outside 1 to 20 and destinations that are too small are refused with the
  library's error codes (the negated error numbers, as \<open>size_t\<close>).
\<close>

definition demo_frame :: "byte list \<Rightarrow> byte list \<Rightarrow> bool" where
  "demo_frame c s \<longleftrightarrow> c = 40 # s"

definition demo_error :: "nat \<Rightarrow> size_t" where
  "demo_error k = - of_nat k"

definition demo_isError :: "size_t \<Rightarrow> cuint" where
  "demo_isError code = (if demo_error 120 < code then 1 else 0)"

fun demo_src :: "ptr \<Rightarrow> size_t \<Rightarrow> byte list" where
  "demo_src NullPtr n = []"
| "demo_src (Ptr xs) n = take (unat n) xs"

definition demo_compress :: "ptr \<Rightarrow> size_t \<Rightarrow> ptr \<Rightarrow> size_t \<Rightarrow> cint \<Rightarrow> size_t \<times> byte list" where
  "demo_compress dst dstCapacity src srcSize level =
     (let s = demo_src src srcSize
      in if level <s 1 \<or> 20 <s level then (demo_error 42, [])
         else if unat dstCapacity < length s + 1 then (demo_error 70, [])
         else (of_nat (length s + 1), 40 # s))"

definition demo_decompress :: "ptr \<Rightarrow> size_t \<Rightarrow> ptr \<Rightarrow> size_t \<Rightarrow> size_t \<times> byte list" where
  "demo_decompress dst dstCapacity src srcSize =
     (case demo_src src srcSize of
        [] \<Rightarrow> (demo_error 72, [])
      | h # s \<Rightarrow>
          if h \<noteq> 40 then (demo_error 10, [])
          else if unat dstCapacity < length s then (demo_error 70, [])
          else (of_nat (length s), s))"

definition demo_compress2 :: "cctx \<Rightarrow> ptr \<Rightarrow> size_t \<Rightarrow> ptr \<Rightarrow> size_t \<Rightarrow> size_t \<times> byte list" where
  "demo_compress2 cctx dst dstCapacity src srcSize =
     (let s = demo_src src srcSize
      in if unat dstCapacity < length s then (demo_error 70, [])
         else (of_nat (length s), s))"

definition demo_getFrameContentSize :: "ptr \<Rightarrow> size_t \<Rightarrow> ull" where
  "demo_getFrameContentSize src srcSize =
     (case demo_src src srcSize of
        [] \<Rightarrow> - 2
      | h # s \<Rightarrow> if h \<noteq> 40 then - 2 else of_nat (length s))"

definition demo_getErrorName :: "size_t \<Rightarrow> string" where
  "demo_getErrorName code =
     (if code = demo_error 70 then ''Destination buffer is too small''
      else if demo_isError code \<noteq> 0 then ''Error (generic)''
      else ''No error detected'')"

definition demo_getError :: "goint \<Rightarrow> size_t error option" where
  "demo_getError code = (if demo_isError code \<noteq> 0 then Some (External code) else None)"

definition demo_IsDstSizeTooSmallError :: "size_t error option \<Rightarrow> bool" where
  "demo_IsDstSizeTooSmallError e = (e = Some (External (demo_error 70)))"

definition demo_readAllReader :: "byte list \<Rightarrow> slice \<times> size_t error option" where
  "demo_readAllReader src =
     (case src of
        [] \<Rightarrow> (NilSlice, Some (External (demo_error 72)))
      | h # s \<Rightarrow>
          if h \<noteq> 40 then (NilSlice, Some (External (demo_error 10)))
          else (Slice s (length s), None))"

definition demo_env :: "size_t env" where
  "demo_env =
     \<lparr>ZSTD_compress = demo_compress,
      ZSTD_decompress = demo_decompress,
      ZSTD_compress2 = demo_compress2,
      ZSTD_getFrameContentSize = demo_getFrameContentSize,
      ZSTD_isError = demo_isError,
      ZSTD_getErrorName = demo_getErrorName,
      scrollCParams = 0,
      getError = demo_getError,
      IsDstSizeTooSmallError = demo_IsDstSizeTooSmallError,
      readAllReader = demo_readAllReader\<rparr>"

section \<open>Proofs\<close>

subsection \<open>Sequencing\<close>

lemma bind_ret [simp]: "bind (ret x) f = f x"
  by (simp add: bind_def ret_def split: prod.splits)

lemma bind_lift_Inr [simp]: "bind (lift (Inr x)) f = f x"
  by (simp add: bind_def lift_def split: prod.splits)

lemma bind_lift_Inl [simp]: "bind (lift (Inl p)) f = ([], Inl p)"
  by (simp add: bind_def lift_def)

lemma bind_call [simp]: "bind (call c x) f = (c # fst (f x), snd (f x))"
  by (simp add: bind_def call_def split: prod.splits)

lemma fst_ret [simp]: "fst (ret x) = []"
  by (simp add: ret_def)

lemma snd_ret [simp]: "snd (ret x) = Inr x"
  by (simp add: ret_def)

lemma bind_Inr [simp]: "bind (t, Inr x) f = (t @ fst (f x), snd (f x))"
  by (simp add: bind_def split: prod.splits)

lemma bind_Inl [simp]: "bind (t, Inl p) f = (t, Inl p)"
  by (simp add: bind_def)

subsection \<open>Signed 64-bit arithmetic\<close>

lemma stb63:
  "- 9223372036854775808 \<le> k \<Longrightarrow> k < 9223372036854775808 \<Longrightarrow> signed_take_bit 63 k = (k::int)"
  using signed_take_bit_int_eq_self [of 63 k] by simp

lemma stb63_nonneg:
  "0 \<le> k \<Longrightarrow> k < 9223372036854775808 \<Longrightarrow> signed_take_bit 63 k = (k::int)"
  by (rule stb63) linarith+

lemma sint64: "sint (w::64 word) = signed_take_bit 63 (uint w)"
  by (simp add: sint_uint)

lemma uint_eq_sint: 
  assumes "0 \<le> sint (w::64 word)" shows "uint w = sint w"
proof (cases "uint w < 2 ^ 63")
  case True
  then show ?thesis by (simp add: sint_uint stb63_nonneg)
next
  case False
  then have "signed_take_bit 63 (uint w) \<le> uint w - 2 ^ Suc 63"
    by (intro signed_take_bit_int_less_eq) simp
  moreover have "uint w < 2 ^ 64" using uint_lt2p [of w] by simp
  ultimately have "sint w < 0"
    unfolding sint64 by (simp del: signed_take_bit_negative_iff)
  with assms show ?thesis by simp
qed

lemma sint_of_nat64:
  assumes "int n < 2 ^ 63" shows "sint (of_nat n :: 64 word) = int n"
  using assms by (simp add: signed_of_nat stb63_nonneg)

lemma sdrop_eq_drop:
  assumes "0 \<le> sint (w::64 word)" shows "signed_drop_bit k w = drop_bit k w"
proof -
  have nb: "\<not> bit w 63" using assms bit_last_iff [of w] by simp
  show ?thesis
    by (rule bit_word_eqI)
      (auto simp: bit_signed_drop_bit_iff bit_drop_bit_eq nb dest: bit_imp_le_length)
qed

lemma sless_nonneg:
  assumes "0 \<le> sint (w::64 word)" shows "w <s 131072 \<longleftrightarrow> w < 131072"
  using uint_eq_sint [OF assms] by (simp add: word_sless_alt word_less_alt)

lemma sint_sub_small:
  assumes "0 \<le> sint (w::64 word)" "sint w < 131072" 
  shows "sint (131072 - w) = 131072 - sint w"
  using assms by (simp add: sint_word_ariths signed_take_bit_int_eq_self)

lemma stb_add_left:
  "signed_take_bit n (signed_take_bit n k + l) = signed_take_bit n (k + (l::int))"
  by (metis signed_take_bit_add signed_take_bit_signed_take_bit min.idem)

subsection \<open>The compression bound\<close>

lemma CompressBound_c: 
  assumes "0 \<le> sint n" shows "CompressBound n = cCompressBound n"
proof -
  have "signed_drop_bit 11 (131072 - n) = drop_bit 11 (131072 - n)" if "n <s 131072"
  proof -
    from that have "sint n < 131072" by (simp add: word_sless_alt)
    with assms have "0 \<le> sint (131072 - n)" by (simp add: sint_sub_small)
    then show ?thesis by (rule sdrop_eq_drop)
  qed
  then show ?thesis
    using assms unfolding CompressBound_def cCompressBound_def ZSTD_compressBound_def
    by (simp add: sdrop_eq_drop sless_nonneg Let_def)
qed

lemma sint_CompressBound:
  assumes "0 \<le> sint n"
  shows "sint (CompressBound n) = signed_take_bit 63 (bound_formula (sint n))"
proof -
  have m: "sint (if n <s 131072 then signed_drop_bit 11 (131072 - n) else 0)
      = (if sint n < 131072 then (131072 - sint n) div 2 ^ 11 else 0)"
    using assms by (simp add: word_sless_alt sint_signed_drop_bit_eq sint_sub_small drop_bit_eq_div)
  have "sint (CompressBound n)
      = signed_take_bit 63 (signed_take_bit 63 (sint n + sint n div 2 ^ 8)
          + sint (if n <s 131072 then signed_drop_bit 11 (131072 - n) else 0))"
    unfolding CompressBound_def Let_def
    by (simp add: sint_word_ariths sint_signed_drop_bit_eq drop_bit_eq_div)
  also have "\<dots> = signed_take_bit 63 (bound_formula (sint n))"
    unfolding m stb_add_left bound_formula_def ..
  finally show ?thesis .
qed

lemma bound_formula_ge: 
  assumes "0 \<le> n" shows "64 \<le> bound_formula n" "n \<le> bound_formula n"
proof -
  have a: "0 \<le> n div 2 ^ 8" using assms by simp
  have b: "0 \<le> (131072 - n) div 2 ^ 11" if "n < 131072" using that by simp
  have c: "63 \<le> (131072 - n) div 2 ^ 11" if "n \<le> 64"
    using zdiv_mono1 [of 131008 "131072 - n" "2 ^ 11"] that by simp
  have d: "(131072 - n) div 2 ^ 11 = 64" if "n = 0" using that by simp
  show "n \<le> bound_formula n" using a b unfolding bound_formula_def by auto
  show "64 \<le> bound_formula n"
  proof (cases "n \<le> 64")
    case True
    then show ?thesis using a c d assms unfolding bound_formula_def by (cases "n = 0") auto
  next
    case False
    then show ?thesis using a b unfolding bound_formula_def by auto
  qed
qed

lemma sint_CompressBound_fit:
  assumes "0 \<le> sint n" "bound_formula (sint n) < 2 ^ 63"
  shows "sint (CompressBound n) = bound_formula (sint n)"
  using assms bound_formula_ge [of "sint n"] by (simp add: sint_CompressBound stb63_nonneg)

text \<open>
  C2. For every non-negative \<open>srcSize\<close>, \<open>CompressBound srcSize\<close> is
  \<open>srcSize + (srcSize >> 8) + margin\<close> in Go's 64-bit arithmetic: the formula on unbounded
  integers wrapped to 64 bits, hence the formula itself whenever that fits. It equals the
  native reference bound, as \<open>cCompressBound\<close> reads it, for every non-negative input,
  zero and the largest \<open>int\<close> included.
\<close>

theorem CompressBound_reference:
  assumes "0 \<le> sint srcSize"
  shows "sint (CompressBound srcSize) = signed_take_bit 63 (bound_formula (sint srcSize))
       \<and> (bound_formula (sint srcSize) < 2 ^ 63
            \<longrightarrow> sint (CompressBound srcSize) = bound_formula (sint srcSize))
       \<and> CompressBound srcSize = cCompressBound srcSize"
  using assms sint_CompressBound sint_CompressBound_fit CompressBound_c by blast

theorem CompressBound_reference_witness:
  "sint (CompressBound 2147483632) = 2155872239
     \<and> cCompressBound 2147483632 = 2155872239
     \<and> sint (cCompressBound 9223372036854775807) = - 9187343239835811842"
proof -
  have p1: "0 \<le> sint (2147483632 :: goint)" and p2: "0 \<le> sint (9223372036854775807 :: goint)"
    by simp_all
  note r1 = CompressBound_reference [OF p1] and r2 = CompressBound_reference [OF p2]
  have a: "sint (CompressBound 2147483632) = 2155872239"
    using r1 [THEN conjunct1] by (simp add: bound_formula_def)
  have c: "sint (CompressBound 9223372036854775807) = - 9187343239835811842"
    using r2 [THEN conjunct1] by (simp add: bound_formula_def)
  have "sint (cCompressBound 2147483632) = 2155872239"
    using a unfolding r1 [THEN conjunct2, THEN conjunct2] .
  then have "cCompressBound 2147483632 = 2155872239"
    by (intro signed_word_eqI) simp
  moreover have "sint (cCompressBound 9223372036854775807) = - 9187343239835811842"
    using c unfolding r2 [THEN conjunct2, THEN conjunct2] .
  ultimately show ?thesis using a by simp
qed

subsection \<open>The empty source\<close>

text \<open>
  C5. With a source of length zero \<open>Decompress\<close> returns the empty buffer and
  \<open>ErrEmptySlice\<close> for every destination, without issuing a native call; this is not a
  result without error.
\<close>

theorem Decompress_empty_source:
  "Decompress env dst [] = ([], Inr (Slice [] 0, Some ErrEmptySlice))
     \<and> (\<forall>d. snd (Decompress env dst []) \<noteq> Inr (d, None))"
  by (simp add: Decompress_def ret_def)

subsection \<open>The size hint\<close>

lemma sint_eq_0_iff64: "sint (w::64 word) = 0 \<longleftrightarrow> w = 0"
  by (rule signed_eq_0_iff)

lemma hint_core:
  assumes "1000000 \<le> sint U"
  shows "sint (let hint = (if r <s 0 then U else r); hint = (if hint = 0 then 1 else hint)
               in if U <s hint then U else (hint::goint))
         = min (if 0 \<le> sint r then (if sint r = 0 then 1 else sint r) else sint U) (sint U)"
  using assms by (auto simp: word_sless_alt Let_def sint_eq_0_iff64)

lemma sint_upperBound:
  assumes "10 * int n < 2 ^ 63"
  shows "sint (let upperBound = 10 * of_nat n :: goint
               in if upperBound <s decompressSizeBufferLimit then decompressSizeBufferLimit
                  else upperBound) = max (10 * int n) 1000000"
proof -
  have "int n < 2 ^ 63" using assms by simp
  then have "sint (10 * of_nat n :: goint) = 10 * int n"
    using assms by (simp add: sint_word_ariths sint_of_nat64 stb63_nonneg)
  then show ?thesis
    by (simp add: Let_def decompressSizeBufferLimit_def word_sless_alt)
qed

lemma decompressSizeHint_long:
  assumes "2 \<le> length src"
  shows "decompressSizeHint env src =
    ([Call_getFrameContentSize (Ptr src) (of_nat (length src))],
     Inr (let upperBound = 10 * of_nat (length src);
              upperBound = (if upperBound <s decompressSizeBufferLimit
                            then decompressSizeBufferLimit else upperBound);
              hint = ZSTD_getFrameContentSize env (Ptr src) (of_nat (length src));
              hint = (if hint <s 0 then upperBound else hint);
              hint = (if hint = 0 then 1 else hint)
          in if upperBound <s hint then upperBound else hint))"
proof -
  from assms have "src \<noteq> []" by auto
  with assms show ?thesis
    by (simp split del: if_split
        add: decompressSizeHint_def Let_def zstdFrameHeaderSizeMin_def addr0_def
          C_ZSTD_getFrameContentSize_def ret_def)
qed

lemma decompressSizeHint_short:
  assumes "length src < 2"
  shows "decompressSizeHint env src =
    ([], Inr (let upperBound = 10 * of_nat (length src)
              in if upperBound <s decompressSizeBufferLimit
                 then decompressSizeBufferLimit else upperBound))"
proof -
  have "\<not> x <s (x::goint)" for x by (simp add: word_sless_alt)
  with assms show ?thesis
    by (simp split del: if_split
        add: decompressSizeHint_def Let_def zstdFrameHeaderSizeMin_def ret_def)
qed

text \<open>
  C1. For a non-empty source (of a length whose tenfold fits Go's \<open>int\<close>, as every slice
  in memory has) \<open>decompressSizeHint\<close> returns the minimum of \<open>declaredOrFallback\<close> and
  \<open>upperBound = max (10 * len src) 1000000\<close>: the declared size, 0 read as 1, when the source
  has at least 2 bytes and the frame reader reports a size, and \<open>upperBound\<close> otherwise. The
  result never exceeds \<open>upperBound\<close>.
\<close>

theorem decompressSizeHint_spec:
  assumes "src \<noteq> []" and "10 * int (length src) < 2 ^ 63"
  shows "\<exists>h. snd (decompressSizeHint env src) = Inr h
           \<and> sint h = hint_spec (length src)
                 (sint (ZSTD_getFrameContentSize env (Ptr src) (of_nat (length src))))
           \<and> sint h \<le> max (10 * int (length src)) 1000000"
proof -
  define U :: goint where "U = (let upperBound = 10 * of_nat (length src)
     in if upperBound <s decompressSizeBufferLimit then decompressSizeBufferLimit else upperBound)"
  define r where "r = ZSTD_getFrameContentSize env (Ptr src) (of_nat (length src))"
  have U: "sint U = max (10 * int (length src)) 1000000"
    unfolding U_def by (rule sint_upperBound [OF assms(2)])
  then have U1: "1000000 \<le> sint U" by simp
  show ?thesis
  proof (cases "2 \<le> length src")
    case True
    define h where "h = (let hint = (if r <s 0 then U else r); hint = (if hint = 0 then 1 else hint)
               in if U <s hint then U else hint)"
    have "snd (decompressSizeHint env src) = Inr h"
      unfolding decompressSizeHint_long [OF True] h_def U_def r_def Let_def by simp
    moreover have "sint h
        = min (if 0 \<le> sint r then (if sint r = 0 then 1 else sint r) else sint U) (sint U)"
      unfolding h_def by (rule hint_core [OF U1])
    then have "sint h = hint_spec (length src) (sint r)"
      unfolding U hint_spec_def Let_def using True by simp
    moreover from this have "sint h \<le> max (10 * int (length src)) 1000000"
      unfolding hint_spec_def Let_def by simp
    ultimately show ?thesis unfolding r_def by blast
  next
    case False
    then have "snd (decompressSizeHint env src) = Inr U"
      unfolding U_def by (simp add: decompressSizeHint_short)
    moreover have "sint U = hint_spec (length src) (sint r)"
      unfolding U hint_spec_def Let_def using False by simp
    ultimately show ?thesis using U unfolding r_def by auto
  qed
qed

theorem decompressSizeHint_spec_witness:
  "[40, 1, 2, 3] \<noteq> ([] :: byte list)
   \<and> (\<exists>h. snd (decompressSizeHint demo_env [40, 1, 2, 3]) = Inr h \<and> sint h = 3)"
  using decompressSizeHint_spec [of "[40, 1, 2, 3]" demo_env]
  by (auto simp: hint_spec_def demo_env_def demo_getFrameContentSize_def)

subsection \<open>Decompression into a given destination, and the fallback\<close>

lemma DecompressInto_unfold:
  assumes "elems dst \<noteq> []" "src \<noteq> []"
  shows "DecompressInto env dst src =
     ([Call_decompress (Ptr (elems dst)) (of_nat (len_s dst)) (Ptr src) (of_nat (length src))],
      Inr (case ZSTD_decompress env (Ptr (elems dst)) (of_nat (len_s dst)) (Ptr src)
                  (of_nat (length src)) of
             (code, out) \<Rightarrow> (store dst out, code, getError env code)))"
  using assms
  by (simp add: DecompressInto_def addr0_def C_ZSTD_decompress_def ret_def split: prod.splits)

text \<open>
  C7. \<open>DecompressInto\<close> on a destination of length zero, the exactly-sized destination of
  the empty payload and an undersized one for any other, panics with an index out of range
  before the native call: it returns neither \<open>(0, nil)\<close> nor an error.
\<close>

theorem DecompressInto_empty_destination:
  "DecompressInto env (Slice a 0) src = ([], Inl IndexOutOfRange)
   \<and> DecompressInto env NilSlice src = ([], Inl IndexOutOfRange)"
  by (simp add: DecompressInto_def addr0_def)

text \<open>
  C9. \<open>DecompressInto\<close> on a source of length zero issues no native call with a null
  pointer and length zero: it panics with an index out of range when it takes the address
  of the first element.
\<close>

theorem DecompressInto_empty_source:
  "DecompressInto env dst [] = ([], Inl IndexOutOfRange)"
  by (simp add: DecompressInto_def addr0_def)

text \<open>
  C3. For a non-empty source, when the \<open>DecompressInto\<close> call inside \<open>Decompress\<close>
  returns an error: if \<open>IsDstSizeTooSmallError\<close> holds of it, \<open>Decompress\<close> returns what
  draining the streaming reader over the source returns; otherwise it returns that error
  with no buffer. This file issues no native call beyond those of the size hint and of
  \<open>DecompressInto\<close>.
\<close>

theorem Decompress_fallback:
  assumes "src \<noteq> []"
    and "snd (decompressSizeHint env src) = Inr bound"
    and "(if sint bound \<le> int (cap_s dst) then slice_to dst (int (cap_s dst))
          else make_bytes (sint bound)) = Inr buf"
    and "snd (DecompressInto env buf src) = Inr (buf', written, Some e)"
  shows "snd (Decompress env dst src) =
           Inr (if IsDstSizeTooSmallError env (Some e) then readAllReader env src
                else (NilSlice, Some e))
       \<and> fst (Decompress env dst src) =
           fst (decompressSizeHint env src) @ fst (DecompressInto env buf src)"
proof -
  obtain t1 where h: "decompressSizeHint env src = (t1, Inr bound)"
    using assms(2) by (cases "decompressSizeHint env src") simp
  obtain t2 where d: "DecompressInto env buf src = (t2, Inr (buf', written, Some e))"
    using assms(4) by (cases "DecompressInto env buf src") simp
  show ?thesis
    using assms(1) assms(3)
    by (simp add: Decompress_def h d ret_def split del: if_split) simp
qed

theorem Decompress_fallback_witness:
  "snd (Decompress (demo_env\<lparr>ZSTD_getFrameContentSize := \<lambda>p n. 1\<rparr>) NilSlice [40, 1, 2, 3])
     = Inr (Slice [1, 2, 3] 3, None)
   \<and> snd (Decompress (demo_env\<lparr>ZSTD_getFrameContentSize := \<lambda>p n. 1\<rparr>) NilSlice [7, 1, 2, 3])
     = Inr (NilSlice, Some (External (demo_error 10)))"
proof -
  let ?env = "demo_env\<lparr>ZSTD_getFrameContentSize := \<lambda>p n. 1\<rparr>"
  have h: "snd (decompressSizeHint ?env [h, 1, 2, 3]) = Inr 1" for h
    by (simp add: decompressSizeHint_long decompressSizeBufferLimit_def Let_def word_sless_alt)
  have b: "(if sint (1::goint) \<le> int (cap_s NilSlice) then slice_to NilSlice (int (cap_s NilSlice))
          else make_bytes (sint (1::goint))) = Inr (Slice [0] 1)"
    by (simp add: make_bytes_def)
  have d1: "snd (DecompressInto ?env (Slice [0] 1) [40, 1, 2, 3])
      = Inr (Slice [0] 1, demo_error 70, Some (External (demo_error 70)))"
    by (simp add: DecompressInto_unfold demo_env_def demo_decompress_def demo_getError_def
        demo_isError_def demo_error_def)
  have d2: "snd (DecompressInto ?env (Slice [0] 1) [7, 1, 2, 3])
      = Inr (Slice [0] 1, demo_error 10, Some (External (demo_error 10)))"
    by (simp add: DecompressInto_unfold demo_env_def demo_decompress_def demo_getError_def
        demo_isError_def demo_error_def)
  have "snd (Decompress ?env NilSlice [40, 1, 2, 3]) = Inr (Slice [1, 2, 3] 3, None)"
    using Decompress_fallback [OF _ h b d1, THEN conjunct1]
    by (simp add: demo_env_def demo_IsDstSizeTooSmallError_def demo_readAllReader_def)
  moreover have "snd (Decompress ?env NilSlice [7, 1, 2, 3])
      = Inr (NilSlice, Some (External (demo_error 10)))"
    using Decompress_fallback [OF _ h b d2, THEN conjunct1]
    by (simp add: demo_env_def demo_IsDstSizeTooSmallError_def demo_error_def)
  ultimately show ?thesis by simp
qed

subsection \<open>Batch compression\<close>

lemma length_store [simp]:
  "length (take (length a) (out @ drop (length out) a)) = length a"
  by simp

lemma slice_to_store:
  "slice_to (store (Slice a n) out) hi =
     (if hi < 0 \<or> int (length a) < hi then Inl SliceBoundsOutOfRange
      else Inr (Slice (take (length a) (out @ drop (length out) a)) (nat hi)))"
  by (simp only: slice_to_def store.simps cap_s.simps length_store slice.case)

lemma checkError_unfold:
  "checkError env code =
     (if ZSTD_isError env code \<noteq> 0
      then ([Call_isError code, Call_getErrorName code],
            Inr (Some (Errorf (''zstd error: '' @ ZSTD_getErrorName env code))))
      else ([Call_isError code], Inr None))"
  by (simp add: checkError_def C_ZSTD_isError_def C_ZSTD_getErrorName_def ret_def)

lemma CompressScrollBatchBytes_unfold:
  assumes "src \<noteq> []"
    and "ZSTD_compress2 env (scrollCParams env) (Ptr (replicate (length src) 0))
           (of_nat (length src)) (Ptr src) (of_nat (length src)) = (result, out)"
  shows "CompressScrollBatchBytes env src =
     (Call_compress2 (scrollCParams env) (Ptr (replicate (length src) 0))
           (of_nat (length src)) (Ptr src) (of_nat (length src))
        # Call_isError result
        # (if ZSTD_isError env result \<noteq> 0 then [Call_getErrorName result] else []),
      if ZSTD_isError env result \<noteq> 0
      then Inr (NilSlice, Some (Errorf (''zstd error: '' @ ZSTD_getErrorName env result)))
      else if uint result \<le> int (length src)
      then Inr (Slice (take (length src) (out @ drop (length out) (replicate (length src) 0)))
                  (nat (uint result)), None)
      else Inl SliceBoundsOutOfRange)"
  using assms
  by (simp add: CompressScrollBatchBytes_def make_bytes_def addr0_def C_ZSTD_compress2_def
      checkError_unfold slice_to_store ret_def lift_def del: store.simps)

text \<open>
  C6. On the empty input \<open>CompressScrollBatchBytes\<close> returns an empty buffer and no error
  without a native call. On a non-empty input it issues \<open>ZSTD_compress2\<close> with the shared
  context \<open>scrollCParams\<close>, a fresh destination of exactly \<open>len src\<close> bytes and the source,
  then classifies the result; when the result is not an error (and within the
  destination) it returns that destination cut to the written length. A buffer returned
  without error is never longer than the input.
\<close>

theorem CompressScrollBatchBytes_spec:
  "CompressScrollBatchBytes env [] = ([], Inr (Slice [] 0, None))
   \<and> (src \<noteq> [] \<longrightarrow>
        (case ZSTD_compress2 env (scrollCParams env) (Ptr (replicate (length src) 0))
                (of_nat (length src)) (Ptr src) (of_nat (length src)) of
           (result, out) \<Rightarrow>
             fst (CompressScrollBatchBytes env src) =
               Call_compress2 (scrollCParams env) (Ptr (replicate (length src) 0))
                   (of_nat (length src)) (Ptr src) (of_nat (length src))
                 # Call_isError result
                 # (if ZSTD_isError env result \<noteq> 0 then [Call_getErrorName result] else [])
             \<and> (ZSTD_isError env result = 0 \<and> uint result \<le> int (length src) \<longrightarrow>
                  snd (CompressScrollBatchBytes env src) =
                    Inr (Slice (take (length src)
                                  (out @ drop (length out) (replicate (length src) 0)))
                           (nat (uint result)), None))))
   \<and> (\<forall>d. snd (CompressScrollBatchBytes env src) = Inr (d, None) \<longrightarrow> len_s d \<le> length src)"
proof (intro conjI impI allI)
  show "CompressScrollBatchBytes env [] = ([], Inr (Slice [] 0, None))"
    by (simp add: CompressScrollBatchBytes_def ret_def)
next
  assume "src \<noteq> []"
  then show "case ZSTD_compress2 env (scrollCParams env) (Ptr (replicate (length src) 0))
                (of_nat (length src)) (Ptr src) (of_nat (length src)) of
           (result, out) \<Rightarrow>
             fst (CompressScrollBatchBytes env src) =
               Call_compress2 (scrollCParams env) (Ptr (replicate (length src) 0))
                   (of_nat (length src)) (Ptr src) (of_nat (length src))
                 # Call_isError result
                 # (if ZSTD_isError env result \<noteq> 0 then [Call_getErrorName result] else [])
             \<and> (ZSTD_isError env result = 0 \<and> uint result \<le> int (length src) \<longrightarrow>
                  snd (CompressScrollBatchBytes env src) =
                    Inr (Slice (take (length src)
                                  (out @ drop (length out) (replicate (length src) 0)))
                           (nat (uint result)), None))"
    by (auto simp: CompressScrollBatchBytes_unfold split: prod.splits)
next
  fix d
  assume r: "snd (CompressScrollBatchBytes env src) = Inr (d, None)"
  show "len_s d \<le> length src"
  proof (cases "src = []")
    case True
    with r show ?thesis by (auto simp: CompressScrollBatchBytes_def ret_def)
  next
    case False
    obtain result out where c: "ZSTD_compress2 env (scrollCParams env)
        (Ptr (replicate (length src) 0)) (of_nat (length src)) (Ptr src) (of_nat (length src))
        = (result, out)"
      by (cases "ZSTD_compress2 env (scrollCParams env)
        (Ptr (replicate (length src) 0)) (of_nat (length src)) (Ptr src) (of_nat (length src))")
    have "unat result \<le> length src" if "uint result \<le> int (length src)"
    proof -
      from that have "nat (uint result) \<le> length src" by linarith
      then show ?thesis by simp
    qed
    with r show ?thesis
      unfolding CompressScrollBatchBytes_unfold [OF False c]
      by (auto split: if_splits)
  qed
qed

theorem CompressScrollBatchBytes_spec_witness:
  "CompressScrollBatchBytes demo_env [1, 2, 3] =
     ([Call_compress2 0 (Ptr [0, 0, 0]) 3 (Ptr [1, 2, 3]) 3, Call_isError 3],
      Inr (Slice [1, 2, 3] 3, None))
   \<and> len_s (Slice [1, 2, 3] 3) \<le> length [1, 2, 3 :: byte]"
proof -
  have s: "scrollCParams demo_env = 0"
    by (simp add: demo_env_def)
  have c: "ZSTD_compress2 demo_env 0 (Ptr [0, 0, 0]) 3 (Ptr [1, 2, 3]) 3 = (3, [1, 2, 3])"
    by (simp add: demo_env_def demo_compress2_def)
  have e: "ZSTD_isError demo_env 3 = 0"
    by (simp add: demo_env_def demo_isError_def demo_error_def)
  note spec = CompressScrollBatchBytes_spec [of demo_env "[1, 2, 3]"]
  have r: "fst (CompressScrollBatchBytes demo_env [1, 2, 3])
        = [Call_compress2 0 (Ptr [0, 0, 0]) 3 (Ptr [1, 2, 3]) 3, Call_isError 3]
      \<and> snd (CompressScrollBatchBytes demo_env [1, 2, 3]) = Inr (Slice [1, 2, 3] 3, None)"
    using spec [THEN conjunct2, THEN conjunct1] by (simp add: s c e)
  then have "len_s (Slice [1, 2, 3] 3) \<le> length [1, 2, 3 :: byte]"
    using spec [THEN conjunct2, THEN conjunct2] by blast
  with r show ?thesis by (simp add: prod_eq_iff)
qed

subsection \<open>Compression at a level\<close>

lemma of_nat_nat_sint:
  assumes "0 \<le> sint (w::64 word)" shows "of_nat (nat (sint w)) = w"
proof -
  have "of_nat (nat (sint w)) = (word_of_int (sint w) :: 64 word)"
    using assms by simp
  then show ?thesis by simp
qed

lemma CompressLevel_unfold:
  fixes env :: "'e env" and dst :: slice and src :: "byte list" and level :: goint
  assumes B: "1 \<le> sint (CompressBound (of_nat (length src)))"
  defines "B \<equiv> CompressBound (of_nat (length src))"
  defines "buf \<equiv> (if sint B \<le> int (cap_s dst)
                    then (case dst of NilSlice \<Rightarrow> NilSlice | Slice a n \<Rightarrow> Slice a (nat (sint B)))
                    else Slice (replicate (nat (sint B)) 0) (nat (sint B)))"
  defines "sp \<equiv> (if src = [] then NullPtr else Ptr src)"
  shows "length (elems buf) = nat (sint B)"
    and "CompressLevel env dst src level =
     ([Call_compress (Ptr (elems buf)) B sp (of_nat (length src)) (ucast level)],
      (case ZSTD_compress env (Ptr (elems buf)) B sp (of_nat (length src)) (ucast level) of
         (cWritten, out) \<Rightarrow>
           (case getError env cWritten of
              Some e \<Rightarrow> Inr (NilSlice, Some e)
            | None \<Rightarrow> (case slice_to (store buf out) (sint cWritten) of
                         Inl p \<Rightarrow> Inl p
                       | Inr d \<Rightarrow> Inr (d, None)))))"
proof -
  have B1: "1 \<le> sint B" using B by (simp add: B_def)
  then have B0: "0 \<le> sint B" by simp
  have nB: "0 < nat (sint B)" using B1 by simp
  show len: "length (elems buf) = nat (sint B)"
    unfolding buf_def using B1 by (cases dst) auto
  then have ne: "elems buf \<noteq> []" using nB by auto
  have lb: "len_s buf = nat (sint B)"
    unfolding buf_def using B1 by (cases dst) auto
  have prep: "(if sint B \<le> int (cap_s dst) then slice_to dst (sint B) else make_bytes (sint B))
      = Inr buf"
    unfolding buf_def using B0 by (cases dst) (auto simp: slice_to_def make_bytes_def)
  have w: "(of_nat (len_s buf) :: size_t) = B"
    unfolding lb by (rule of_nat_nat_sint [OF B0])
  show "CompressLevel env dst src level =
     ([Call_compress (Ptr (elems buf)) B sp (of_nat (length src)) (ucast level)],
      (case ZSTD_compress env (Ptr (elems buf)) B sp (of_nat (length src)) (ucast level) of
         (cWritten, out) \<Rightarrow>
           (case getError env cWritten of
              Some e \<Rightarrow> Inr (NilSlice, Some e)
            | None \<Rightarrow> (case slice_to (store buf out) (sint cWritten) of
                         Inl p \<Rightarrow> Inl p
                       | Inr d \<Rightarrow> Inr (d, None)))))"
  proof -
    obtain cw out where z: "ZSTD_compress env (Ptr (elems buf)) B sp (of_nat (length src))
        (ucast level) = (cw, out)"
      by (cases "ZSTD_compress env (Ptr (elems buf)) B sp (of_nat (length src)) (ucast level)")
    show ?thesis
      unfolding CompressLevel_def Let_def B_def [symmetric] prep
      using ne z
      by (cases "src = []")
        (simp_all add: addr0_def C_ZSTD_compress_def w sp_def ret_def lift_def
          split: option.splits sum.splits)
  qed
qed

lemma CompressBound_len:
  assumes "bound_formula (int (length src)) < 2 ^ 63"
  shows "sint (CompressBound (of_nat (length src))) = bound_formula (int (length src))"
    and "64 \<le> sint (CompressBound (of_nat (length src)))"
proof -
  have "int (length src) \<le> bound_formula (int (length src))"
    by (rule bound_formula_ge) simp
  with assms have "int (length src) < 2 ^ 63" by linarith
  then have s: "sint (of_nat (length src) :: goint) = int (length src)"
    by (rule sint_of_nat64)
  show "sint (CompressBound (of_nat (length src))) = bound_formula (int (length src))"
    using sint_CompressBound_fit [of "of_nat (length src)"] assms unfolding s by simp
  then show "64 \<le> sint (CompressBound (of_nat (length src)))"
    using bound_formula_ge(1) [of "int (length src)"] by simp
qed

lemma ucast_level_wrap: "(ucast (level + 2 ^ 32 :: goint) :: cint) = ucast level"
proof (rule word_uint_eqI)
  have d: "(2 ^ 32 :: int) dvd 2 ^ 64"
    by (rule le_imp_power_dvd) simp
  have "uint (ucast (level + 2 ^ 32 :: goint) :: cint) = ((uint level + 2 ^ 32) mod 2 ^ 64) mod 2 ^ 32"
    by (simp add: unsigned_ucast_eq take_bit_eq_mod uint_word_ariths)
  also have "\<dots> = (uint level + 2 ^ 32) mod 2 ^ 32"
    by (rule mod_mod_cancel [OF d])
  also have "\<dots> = uint level mod 2 ^ 32"
    by simp
  also have "\<dots> = uint (ucast level :: cint)"
    by (simp add: unsigned_ucast_eq take_bit_eq_mod)
  finally show "uint (ucast (level + 2 ^ 32 :: goint) :: cint) = uint (ucast level :: cint)" .
qed

text \<open>
  C8 (as amended). \<open>CompressLevel\<close> neither checks nor clamps the level. When the bound
  of the source's length fits Go's \<open>int\<close>, it issues exactly one native call,
  \<open>ZSTD_compress\<close> on a non-empty destination with the level converted to C's 32-bit
  \<open>int\<close>, and it returns an error exactly when the classifier reports the native result
  as one: that error, with no buffer. The level reaches the library through its low 32 bits
  only: a level and the same level plus \<open>2^32\<close> give the same result.
\<close>

theorem CompressLevel_level_passed:
  "(bound_formula (int (length src)) < 2 ^ 63 \<longrightarrow>
      (\<exists>buf. buf \<noteq> []
         \<and> fst (CompressLevel env dst src level) =
             [Call_compress (Ptr buf) (CompressBound (of_nat (length src)))
                (if src = [] then NullPtr else Ptr src) (of_nat (length src)) (ucast level)]
         \<and> (\<forall>d e. snd (CompressLevel env dst src level) = Inr (d, Some e) \<longleftrightarrow>
                 d = NilSlice
                 \<and> getError env (fst (ZSTD_compress env (Ptr buf)
                       (CompressBound (of_nat (length src)))
                       (if src = [] then NullPtr else Ptr src) (of_nat (length src))
                       (ucast level))) = Some e)))
   \<and> CompressLevel env dst src (level + 2 ^ 32) = CompressLevel env dst src level"
proof (intro conjI impI)
  assume a: "bound_formula (int (length src)) < 2 ^ 63"
  have B: "1 \<le> sint (CompressBound (of_nat (length src)))"
    using CompressBound_len(2) [OF a] by simp
  define b where "b = (if sint (CompressBound (of_nat (length src))) \<le> int (cap_s dst)
                    then (case dst of NilSlice \<Rightarrow> NilSlice
                          | Slice a n \<Rightarrow> Slice a (nat (sint (CompressBound (of_nat (length src))))))
                    else Slice (replicate (nat (sint (CompressBound (of_nat (length src))))) 0)
                           (nat (sint (CompressBound (of_nat (length src))))))"
  note u1 = CompressLevel_unfold(1) [where dst = dst, OF B, folded b_def]
    and u2 = CompressLevel_unfold(2) [where dst = dst and env = env and level = level, OF B,
      folded b_def]
  obtain cw out where z: "ZSTD_compress env (Ptr (elems b)) (CompressBound (of_nat (length src)))
      (if src = [] then NullPtr else Ptr src) (of_nat (length src)) (ucast level) = (cw, out)"
    by (cases "ZSTD_compress env (Ptr (elems b)) (CompressBound (of_nat (length src)))
      (if src = [] then NullPtr else Ptr src) (of_nat (length src)) (ucast level)")
  have "elems b \<noteq> []" using u1 B by auto
  moreover have "fst (CompressLevel env dst src level) =
             [Call_compress (Ptr (elems b)) (CompressBound (of_nat (length src)))
                (if src = [] then NullPtr else Ptr src) (of_nat (length src)) (ucast level)]"
    unfolding u2 by simp
  moreover have "snd (CompressLevel env dst src level) = Inr (d, Some e) \<longleftrightarrow>
      d = NilSlice
      \<and> getError env (fst (ZSTD_compress env (Ptr (elems b))
                    (CompressBound (of_nat (length src)))
                    (if src = [] then NullPtr else Ptr src) (of_nat (length src))
                    (ucast level))) = Some e" for d e
    unfolding u2 z by (auto split: option.splits sum.splits)
  ultimately show "\<exists>buf. buf \<noteq> []
         \<and> fst (CompressLevel env dst src level) =
             [Call_compress (Ptr buf) (CompressBound (of_nat (length src)))
                (if src = [] then NullPtr else Ptr src) (of_nat (length src)) (ucast level)]
         \<and> (\<forall>d e. snd (CompressLevel env dst src level) = Inr (d, Some e) \<longleftrightarrow>
                 d = NilSlice
                 \<and> getError env (fst (ZSTD_compress env (Ptr buf)
                       (CompressBound (of_nat (length src)))
                       (if src = [] then NullPtr else Ptr src) (of_nat (length src))
                       (ucast level))) = Some e)"
    by blast
next
  show "CompressLevel env dst src (level + 2 ^ 32) = CompressLevel env dst src level"
    unfolding CompressLevel_def ucast_level_wrap ..
qed

theorem CompressLevel_level_passed_witness:
  "snd (CompressLevel demo_env NilSlice [1, 2, 3] 21)
     = Inr (NilSlice, Some (External (demo_error 42)))"
proof -
  have z: "ZSTD_compress demo_env (Ptr buf) n (Ptr [1, 2, 3]) 3 21 = (demo_error 42, [])"
    for buf n
    by (simp add: demo_env_def demo_compress_def word_sless_alt)
  have g: "getError demo_env (demo_error 42) = Some (External (demo_error 42))"
    by (simp add: demo_env_def demo_getError_def demo_isError_def demo_error_def)
  show ?thesis
    using CompressLevel_level_passed [of "[1, 2, 3]" demo_env NilSlice 21, THEN conjunct1]
    by (auto simp: bound_formula_def z g)
qed

text \<open>
  C8 (as stated) fails: with a library that refuses every level outside 1 to 20, the level
  \<open>2^32 + 1\<close> reaches it as level 1 and the empty input is compressed without error.
\<close>

theorem CompressLevel_level_counterexample:
  "snd (CompressLevel demo_env NilSlice [] 4294967297) = Inr (Slice (40 # replicate 63 0) 1, None)
   \<and> snd (CompressLevel demo_env NilSlice [] 21) = Inr (NilSlice, Some (External (demo_error 42)))"
proof -
  have cb: "CompressBound 0 = 64"
    by (simp add: CompressBound_def word_sless_alt)
  have g1: "demo_getError 1 = None"
    by (simp add: demo_getError_def demo_isError_def demo_error_def)
  have g2: "demo_getError (demo_error 42) = Some (External (demo_error 42))"
    by (simp add: demo_getError_def demo_isError_def demo_error_def)
  have s: "slice_to (store (Slice (replicate 64 0) 64) [40]) 1
      = Inr (Slice (40 # replicate 63 0) 1)"
    by (simp add: slice_to_def)
  show ?thesis
    by (simp add: CompressLevel_def Let_def cb make_bytes_def addr0_def C_ZSTD_compress_def
        demo_env_def demo_compress_def word_sless_alt g1 g2 s ret_def del: store.simps)
qed

subsection \<open>Destinations of the native calls\<close>

lemma fst_bind_lift: "fst (bind (lift r) f) = (case r of Inl p \<Rightarrow> [] | Inr x \<Rightarrow> fst (f x))"
  by (cases r) simp_all

lemma upperBound_ge:
  "1000000 \<le> sint (let upperBound = 10 * of_nat n :: goint
               in if upperBound <s decompressSizeBufferLimit then decompressSizeBufferLimit
                  else upperBound)"
  by (simp add: Let_def decompressSizeBufferLimit_def word_sless_alt)

lemma decompressSizeHint_ge_1:
  "\<exists>t h. decompressSizeHint env src = (t, Inr h) \<and> 1 \<le> sint h"
proof (cases "2 \<le> length src")
  case True
  define U :: goint where "U = (let upperBound = 10 * of_nat (length src)
     in if upperBound <s decompressSizeBufferLimit then decompressSizeBufferLimit else upperBound)"
  define r where "r = ZSTD_getFrameContentSize env (Ptr src) (of_nat (length src))"
  define h where "h = (let hint = (if r <s 0 then U else r); hint = (if hint = 0 then 1 else hint)
               in if U <s hint then U else hint)"
  have U1: "1000000 \<le> sint U" unfolding U_def by (rule upperBound_ge)
  have "decompressSizeHint env src
      = ([Call_getFrameContentSize (Ptr src) (of_nat (length src))], Inr h)"
    unfolding decompressSizeHint_long [OF True] h_def U_def r_def Let_def by simp
  moreover have "sint h
        = min (if 0 \<le> sint r then (if sint r = 0 then 1 else sint r) else sint U) (sint U)"
    unfolding h_def by (rule hint_core [OF U1])
  then have "1 \<le> sint h" using U1 by (simp split: if_splits)
  ultimately show ?thesis by blast
next
  case False
  then have "length src < 2" by simp
  have "1 \<le> sint (let upperBound = 10 * of_nat (length src) :: goint
               in if upperBound <s decompressSizeBufferLimit then decompressSizeBufferLimit
                  else upperBound)"
    using upperBound_ge [of "length src"] by linarith
  with decompressSizeHint_short [OF \<open>length src < 2\<close>, of env]
  show ?thesis by blast
qed

lemma Decompress_trace:
  assumes "src \<noteq> []"
  shows "\<exists>buf. buf \<noteq> []
     \<and> fst (Decompress env dst src) =
         fst (decompressSizeHint env src)
           @ [Call_decompress (Ptr buf) (of_nat (length buf)) (Ptr src) (of_nat (length src))]"
proof -
  obtain t h where h: "decompressSizeHint env src = (t, Inr h)" and h1: "1 \<le> sint h"
    using decompressSizeHint_ge_1 by blast
  define b where "b = (if sint h \<le> int (cap_s dst)
      then (case dst of NilSlice \<Rightarrow> NilSlice | Slice a n \<Rightarrow> Slice a (length a))
      else Slice (replicate (nat (sint h)) 0) (nat (sint h)))"
  have prep: "(if sint h \<le> int (cap_s dst) then slice_to dst (int (cap_s dst))
      else make_bytes (sint h)) = Inr b"
    unfolding b_def using h1 by (cases dst) (auto simp: slice_to_def make_bytes_def)
  have ne: "elems b \<noteq> []"
    unfolding b_def using h1 by (cases dst) auto
  have len: "len_s b = length (elems b)"
    unfolding b_def using h1 by (cases dst) auto
  obtain code out where z: "ZSTD_decompress env (Ptr (elems b)) (of_nat (len_s b)) (Ptr src)
      (of_nat (length src)) = (code, out)"
    by (cases "ZSTD_decompress env (Ptr (elems b)) (of_nat (len_s b)) (Ptr src)
      (of_nat (length src))")
  have "fst (Decompress env dst src) =
      t @ [Call_decompress (Ptr (elems b)) (of_nat (len_s b)) (Ptr src) (of_nat (length src))]"
    using assms
    by (simp add: Decompress_def h prep DecompressInto_unfold [OF ne assms] z fst_bind_lift
        split: sum.splits del: store.simps)
  then show ?thesis using ne h unfolding len by auto
qed

text \<open>
  C10 (as amended). \<open>CompressBound n\<close> is at least 64 for every non-negative \<open>n\<close> whose
  bound fits Go's \<open>int\<close>, and \<open>decompressSizeHint\<close> is at least 1 for every source. When the
  bound of the source's length fits, \<open>CompressLevel\<close> issues its native call with a
  destination of at least 64 bytes, and for a non-empty source \<open>Decompress\<close> issues its
  native call with a non-empty destination: the address of the destination's first element
  is taken without a panic on both paths, the empty input included.
\<close>

theorem native_destination_nonempty:
  "(0 \<le> sint n \<and> bound_formula (sint n) < 2 ^ 63 \<longrightarrow> 64 \<le> sint (CompressBound n))
   \<and> (\<exists>h. snd (decompressSizeHint env src) = Inr h \<and> 1 \<le> sint h)
   \<and> (bound_formula (int (length src)) < 2 ^ 63 \<longrightarrow>
        (\<exists>buf. 64 \<le> length buf
           \<and> fst (CompressLevel env dst src level) =
               [Call_compress (Ptr buf) (of_nat (length buf))
                  (if src = [] then NullPtr else Ptr src) (of_nat (length src)) (ucast level)]))
   \<and> (src \<noteq> [] \<longrightarrow>
        (\<exists>buf. buf \<noteq> []
           \<and> fst (Decompress env dst src) =
               fst (decompressSizeHint env src)
                 @ [Call_decompress (Ptr buf) (of_nat (length buf)) (Ptr src)
                      (of_nat (length src))]))"
proof (intro conjI impI)
  assume "0 \<le> sint n \<and> bound_formula (sint n) < 2 ^ 63"
  then show "64 \<le> sint (CompressBound n)"
    using sint_CompressBound_fit [of n] bound_formula_ge(1) [of "sint n"] by simp
next
  show "\<exists>h. snd (decompressSizeHint env src) = Inr h \<and> 1 \<le> sint h"
    using decompressSizeHint_ge_1 [of env src] by auto
next
  assume a: "bound_formula (int (length src)) < 2 ^ 63"
  have B: "1 \<le> sint (CompressBound (of_nat (length src)))"
    and B64: "64 \<le> sint (CompressBound (of_nat (length src)))"
    using CompressBound_len(2) [OF a] by simp_all
  define b where "b = (if sint (CompressBound (of_nat (length src))) \<le> int (cap_s dst)
                    then (case dst of NilSlice \<Rightarrow> NilSlice
                          | Slice a n \<Rightarrow> Slice a (nat (sint (CompressBound (of_nat (length src))))))
                    else Slice (replicate (nat (sint (CompressBound (of_nat (length src))))) 0)
                           (nat (sint (CompressBound (of_nat (length src))))))"
  note u1 = CompressLevel_unfold(1) [where dst = dst, OF B, folded b_def]
    and u2 = CompressLevel_unfold(2) [where dst = dst and env = env and level = level, OF B,
      folded b_def]
  have "64 \<le> length (elems b)" using u1 B64 by simp
  moreover have "(of_nat (length (elems b)) :: size_t) = CompressBound (of_nat (length src))"
    unfolding u1 using B by (intro of_nat_nat_sint) simp
  then have "fst (CompressLevel env dst src level) =
             [Call_compress (Ptr (elems b)) (of_nat (length (elems b)))
                (if src = [] then NullPtr else Ptr src) (of_nat (length src)) (ucast level)]"
    unfolding u2 by simp
  ultimately show "\<exists>buf. 64 \<le> length buf
           \<and> fst (CompressLevel env dst src level) =
               [Call_compress (Ptr buf) (of_nat (length buf))
                  (if src = [] then NullPtr else Ptr src) (of_nat (length src)) (ucast level)]"
    by blast
next
  assume "src \<noteq> []"
  then show "\<exists>buf. buf \<noteq> []
           \<and> fst (Decompress env dst src) =
               fst (decompressSizeHint env src)
                 @ [Call_decompress (Ptr buf) (of_nat (length buf)) (Ptr src)
                      (of_nat (length src))]"
    by (rule Decompress_trace)
qed

theorem native_destination_nonempty_witness:
  "64 \<le> sint (CompressBound 0)
   \<and> (\<exists>buf. 64 \<le> length buf
         \<and> fst (CompressLevel demo_env NilSlice [] 5) =
             [Call_compress (Ptr buf) (of_nat (length buf)) NullPtr 0 5])
   \<and> (\<exists>buf. buf \<noteq> []
         \<and> fst (Decompress demo_env NilSlice [40]) =
             [Call_decompress (Ptr buf) (of_nat (length buf)) (Ptr [40]) 1])"
  using native_destination_nonempty [of 0 demo_env "[]" NilSlice 5]
    native_destination_nonempty [of 0 demo_env "[40]" NilSlice 5]
  by (simp add: bound_formula_def decompressSizeHint_short)

text \<open>
  C10 (as stated) fails for the largest \<open>int\<close>: its bound wraps around to a negative
  number.
\<close>

theorem CompressBound_positive_counterexample:
  "sint (CompressBound 9223372036854775807) = - 9187343239835811842"
  by (simp add: CompressBound_def word_sless_alt)

subsection \<open>The round trip\<close>

lemma sint_ucast_level:
  assumes "1 \<le> sint (level :: goint)" "sint level \<le> 20"
  shows "sint (ucast level :: cint) = sint level"
proof -
  have u: "uint level = sint level" using assms by (intro uint_eq_sint) simp
  have "sint (ucast level :: cint) = signed_take_bit 31 (uint level)"
    by (simp add: signed_ucast_eq)
  also have "\<dots> = signed_take_bit 31 (sint level)"
    unfolding u ..
  also have "\<dots> = sint level"
    using assms signed_take_bit_int_eq_self [of 31 "sint level"] by simp
  finally show ?thesis .
qed

lemma elems_store_take:
  assumes "length out \<le> length a"
  shows "elems (Slice (take (length a) (out @ drop (length out) a)) (length out)) = out"
  using assms by simp

lemma contract_compress:
  assumes "codec_contract env frame"
    and "1 \<le> sint level" "sint level \<le> 20"
    and "bound_formula (int (length s)) \<le> int (length buf)" "int (length buf) < 2 ^ 63"
  shows "case ZSTD_compress env (Ptr buf) (of_nat (length buf))
                (if s = [] then NullPtr else Ptr s) (of_nat (length s)) level of
           (n, out) \<Rightarrow>
             getError env n = None \<and> 0 < sint n \<and> sint n \<le> int (length buf)
               \<and> int (length out) = sint n \<and> frame out s"
  by (rule assms(1) [unfolded codec_contract_def, THEN conjunct1, rule_format])
    (intro conjI assms)

lemma contract_decompress:
  assumes "codec_contract env frame"
    and "frame c s" "int (length c) < 2 ^ 63" "buf \<noteq> []" "int (length buf) < 2 ^ 63"
  shows "case ZSTD_decompress env (Ptr buf) (of_nat (length buf)) (Ptr c) (of_nat (length c)) of
           (n, out) \<Rightarrow>
             if length s \<le> length buf
             then n = of_nat (length s) \<and> out = s \<and> getError env n = None
             else getError env n \<noteq> None \<and> IsDstSizeTooSmallError env (getError env n)"
  by (rule assms(1) [unfolded codec_contract_def, THEN conjunct2, THEN conjunct1, rule_format])
    (intro conjI assms)

lemma contract_reader:
  assumes "codec_contract env frame" and "frame c s"
  shows "case readAllReader env c of (d, err) \<Rightarrow> err = None \<and> elems d = s"
  by (rule assms(1) [unfolded codec_contract_def, THEN conjunct2, THEN conjunct2, rule_format])
    (rule assms)

text \<open>The compressing half: a non-empty frame of the payload, and no error.\<close>

lemma CompressLevel_frame:
  assumes lvl: "1 \<le> sint level" "sint level \<le> 20"
    and fit: "bound_formula (int (length s)) < 2 ^ 63"
    and codec: "codec_contract env frame"
  shows "\<exists>c. snd (CompressLevel env NilSlice s level) = Inr (c, None) \<and> frame (elems c) s
            \<and> elems c \<noteq> [] \<and> int (length (elems c)) < 2 ^ 63"
proof -
  define B where "B = CompressBound (of_nat (length s))"
  have sB: "sint B = bound_formula (int (length s))" and B64: "64 \<le> sint B"
    unfolding B_def using CompressBound_len [OF fit] by simp_all
  then have B1: "1 \<le> sint (CompressBound (of_nat (length s)))" unfolding B_def by simp
  define zb :: "byte list" where "zb = replicate (nat (sint B)) 0"
  have lz: "int (length zb) = sint B" unfolding zb_def using B64 by simp
  have wz: "(of_nat (length zb) :: size_t) = B"
    unfolding zb_def using B64 by (simp add: of_nat_nat_sint)
  have b: "(if sint B \<le> int (cap_s NilSlice)
             then (case NilSlice of NilSlice \<Rightarrow> NilSlice | Slice a n \<Rightarrow> Slice a (nat (sint B)))
             else Slice (replicate (nat (sint B)) 0) (nat (sint B))) = Slice zb (length zb)"
    unfolding zb_def using B64 by simp
  have e: "elems (Slice zb (length zb)) = zb" by simp
  note u = CompressLevel_unfold(2) [where dst = NilSlice and env = env and level = level, OF B1,
      folded B_def, unfolded b e]
  obtain n out where z: "ZSTD_compress env (Ptr zb) B (if s = [] then NullPtr else Ptr s)
      (of_nat (length s)) (ucast level) = (n, out)"
    by (cases "ZSTD_compress env (Ptr zb) B (if s = [] then NullPtr else Ptr s)
      (of_nat (length s)) (ucast level)")
  have "case ZSTD_compress env (Ptr zb) (of_nat (length zb))
                (if s = [] then NullPtr else Ptr s) (of_nat (length s)) (ucast level) of
           (n, out) \<Rightarrow>
             getError env n = None \<and> 0 < sint n \<and> sint n \<le> int (length zb)
               \<and> int (length out) = sint n \<and> frame out s"
    using lvl fit sB lz by (intro contract_compress [OF codec]) (simp_all add: sint_ucast_level)
  then have k: "getError env n = None" "0 < sint n" "sint n \<le> int (length zb)"
    "int (length out) = sint n" "frame out s"
    unfolding wz z by simp_all
  have lo: "length out \<le> length zb" "nat (sint n) = length out" "out \<noteq> []"
    using k by auto
  have l63: "int (length out) < 2 ^ 63"
    unfolding k(4) using sint_lt [of n] by simp
  have "slice_to (store (Slice zb (length zb)) out) (sint n)
      = Inr (Slice (take (length zb) (out @ drop (length out) zb)) (length out))"
    using k lo by (simp add: slice_to_store del: store.simps)
  then have "snd (CompressLevel env NilSlice s level)
      = Inr (Slice (take (length zb) (out @ drop (length out) zb)) (length out), None)"
    unfolding u z by (simp add: k del: store.simps)
  moreover have "elems (Slice (take (length zb) (out @ drop (length out) zb)) (length out)) = out"
    using lo(1) by (rule elems_store_take)
  ultimately show ?thesis using k(5) lo(3) l63 by auto
qed

text \<open>The decompressing half: the payload of a frame, by either path.\<close>

lemma Decompress_frame:
  assumes codec: "codec_contract env frame" and f: "frame c s" and ne: "c \<noteq> []"
    and lc: "int (length c) < 2 ^ 63" and len: "int (length s) < 2 ^ 63"
  shows "\<exists>d. snd (Decompress env NilSlice c) = Inr (d, None) \<and> elems d = s"
proof -
  obtain t h where h: "decompressSizeHint env c = (t, Inr h)" and h1: "1 \<le> sint h"
    using decompressSizeHint_ge_1 by blast
  define zb :: "byte list" where "zb = replicate (nat (sint h)) 0"
  have zne: "zb \<noteq> []" unfolding zb_def using h1 by simp
  have "sint h < 2 ^ 63" using sint_lt [of h] by simp
  then have lz: "int (length zb) < 2 ^ 63" unfolding zb_def using h1 by simp
  have prep: "(if sint h \<le> int (cap_s NilSlice) then slice_to NilSlice (int (cap_s NilSlice))
      else make_bytes (sint h)) = Inr (Slice zb (length zb))"
    unfolding zb_def using h1 by (simp add: make_bytes_def)
  have e: "elems (Slice zb (length zb)) = zb" "len_s (Slice zb (length zb)) = length zb"
    by simp_all
  obtain n out where z: "ZSTD_decompress env (Ptr zb) (of_nat (length zb)) (Ptr c)
      (of_nat (length c)) = (n, out)"
    by (cases "ZSTD_decompress env (Ptr zb) (of_nat (length zb)) (Ptr c) (of_nat (length c))")
  have d: "DecompressInto env (Slice zb (length zb)) c =
      ([Call_decompress (Ptr zb) (of_nat (length zb)) (Ptr c) (of_nat (length c))],
       Inr (store (Slice zb (length zb)) out, n, getError env n))"
    using DecompressInto_unfold [of "Slice zb (length zb)" c env] zne ne
    unfolding e z by simp
  have k: "if length s \<le> length zb
           then n = of_nat (length s) \<and> out = s \<and> getError env n = None
           else getError env n \<noteq> None \<and> IsDstSizeTooSmallError env (getError env n)"
    using contract_decompress [OF codec f lc zne lz] unfolding z by simp
  have D: "snd (Decompress env NilSlice c) =
      snd (if getError env n = None
           then bind (lift (slice_to (store (Slice zb (length zb)) out) (sint n)))
                  (\<lambda>d. ret (d, None))
           else if \<not> IsDstSizeTooSmallError env (getError env n)
                then ret (NilSlice, getError env n)
                else ret (readAllReader env c))"
    using ne
    by (simp only: Decompress_def length_0_conv if_False h bind_Inr prep bind_lift_Inr d
        prod.case snd_conv fst_conv)
  show ?thesis
  proof (cases "length s \<le> length zb")
    case True
    with k have n: "n = of_nat (length s)" and out: "out = s" and g: "getError env n = None"
      by auto
    have sn: "sint n = int (length s)" unfolding n by (rule sint_of_nat64 [OF len])
    have "slice_to (store (Slice zb (length zb)) s) (int (length s))
        = Inr (Slice (take (length zb) (s @ drop (length s) zb)) (length s))"
      using True by (simp add: slice_to_store del: store.simps)
    then have "snd (Decompress env NilSlice c)
        = Inr (Slice (take (length zb) (s @ drop (length s) zb)) (length s), None)"
      unfolding D by (simp add: g sn out del: store.simps)
    moreover have "elems (Slice (take (length zb) (s @ drop (length s) zb)) (length s)) = s"
      using True by (rule elems_store_take)
    ultimately show ?thesis by blast
  next
    case False
    with k have g: "getError env n \<noteq> None" "IsDstSizeTooSmallError env (getError env n)"
      by auto
    obtain d err where r: "readAllReader env c = (d, err)"
      by (cases "readAllReader env c")
    with contract_reader [OF codec f] have "err = None" "elems d = s" by simp_all
    moreover have "snd (Decompress env NilSlice c) = Inr (d, err)"
      unfolding D using g by (auto simp: r)
    ultimately show ?thesis by blast
  qed
qed

text \<open>
  C4. For every byte sequence \<open>s\<close>, the empty one included (of a length whose bound fits
  Go's \<open>int\<close>, as every slice in memory has), and every level from 1 to 20, when the native
  library, the classifier and the streaming reader keep their contract,
  \<open>CompressLevel(nil, s, level)\<close> returns a buffer without error, and \<open>Decompress\<close> of
  \<open>nil\<close> and that buffer returns without error a buffer holding exactly \<open>s\<close>.
\<close>

theorem compress_decompress_roundtrip:
  assumes "sint BestSpeed \<le> sint level" and "sint level \<le> sint BestCompression"
    and "bound_formula (int (length s)) < 2 ^ 63"
    and "codec_contract env frame"
  shows "\<exists>c. snd (CompressLevel env NilSlice s level) = Inr (c, None)
           \<and> (\<exists>d. snd (Decompress env NilSlice (elems c)) = Inr (d, None) \<and> elems d = s)"
proof -
  have lvl: "1 \<le> sint level" "sint level \<le> 20"
    using assms(1,2) by (simp_all add: BestSpeed_def BestCompression_def)
  have "int (length s) \<le> bound_formula (int (length s))"
    by (rule bound_formula_ge) simp
  with assms(3) have len: "int (length s) < 2 ^ 63" by linarith
  obtain c where c: "snd (CompressLevel env NilSlice s level) = Inr (c, None)"
    and f: "frame (elems c) s" and ne: "elems c \<noteq> []"
    and lc: "int (length (elems c)) < 2 ^ 63"
    using CompressLevel_frame [OF lvl assms(3,4)] by blast
  from Decompress_frame [OF assms(4) f ne lc len] c show ?thesis by blast
qed

subsection \<open>The small instance keeps the contract\<close>

lemma bound_formula_gt:
  assumes "0 \<le> n" shows "n < bound_formula n"
proof (cases "n \<le> 2048")
  case True
  then have "63 \<le> (131072 - n) div 2 ^ 11"
    using zdiv_mono1 [of 129024 "131072 - n" "2 ^ 11"] by simp
  moreover have "0 \<le> n div 2 ^ 8" using assms by simp
  ultimately show ?thesis using True unfolding bound_formula_def by simp
next
  case False
  then have "8 \<le> n div 2 ^ 8"
    using zdiv_mono1 [of 2048 n "2 ^ 8"] by simp
  moreover have "0 \<le> (131072 - n) div 2 ^ 11" if "n < 131072" using that by simp
  ultimately show ?thesis unfolding bound_formula_def by auto
qed

lemma unat_of_nat64:
  assumes "int n < 2 ^ 63" shows "unat (of_nat n :: 64 word) = n"
proof -
  have "n < 2 ^ 64" using assms by simp
  then show ?thesis by (simp add: unat_of_nat)
qed

lemma demo_not_error:
  assumes "int n < 2 ^ 63" shows "demo_getError (of_nat n) = None"
proof -
  have "uint (of_nat n :: 64 word) = int n"
    unfolding uint_nat unat_of_nat64 [OF assms] ..
  then have "\<not> demo_error 120 < (of_nat n :: 64 word)"
    using assms by (simp add: word_less_alt demo_error_def)
  then show ?thesis by (simp add: demo_getError_def demo_isError_def)
qed

lemma demo_too_small:
  "demo_getError (demo_error 70) = Some (External (demo_error 70))"
  by (simp add: demo_getError_def demo_isError_def demo_error_def)

lemma demo_contract: "codec_contract demo_env demo_frame"
  unfolding codec_contract_def
proof (intro conjI allI impI)
  fix s buf :: "byte list" and level :: cint
  assume a: "1 \<le> sint level \<and> sint level \<le> 20
      \<and> bound_formula (int (length s)) \<le> int (length buf) \<and> int (length buf) < 2 ^ 63"
  have ls: "int (length s) < int (length buf)"
    using a bound_formula_gt [of "int (length s)"] by simp
  then have s63: "int (length s) < 2 ^ 63" "int (length s + 1) < 2 ^ 63" using a by simp_all
  have src: "demo_src (if s = [] then NullPtr else Ptr s) (of_nat (length s)) = s"
    using s63 by (simp add: unat_of_nat64)
  have "demo_compress (Ptr buf) (of_nat (length buf)) (if s = [] then NullPtr else Ptr s)
      (of_nat (length s)) level = (of_nat (length s + 1), 40 # s)"
    unfolding demo_compress_def src Let_def using a ls
    by (simp add: word_sless_alt unat_of_nat64)
  moreover have "sint (of_nat (length s + 1) :: 64 word) = int (length s + 1)"
    by (rule sint_of_nat64 [OF s63(2)])
  ultimately show "case ZSTD_compress demo_env (Ptr buf) (of_nat (length buf))
                (if s = [] then NullPtr else Ptr s) (of_nat (length s)) level of
           (n, out) \<Rightarrow>
             getError demo_env n = None \<and> 0 < sint n \<and> sint n \<le> int (length buf)
               \<and> int (length out) = sint n \<and> demo_frame out s"
    using ls demo_not_error [OF s63(2)]
    by (simp add: demo_env_def demo_frame_def)
next
  fix c s buf :: "byte list"
  assume a: "demo_frame c s \<and> int (length c) < 2 ^ 63 \<and> buf \<noteq> [] \<and> int (length buf) < 2 ^ 63"
  then have c: "c = 40 # s" by (simp add: demo_frame_def)
  have src: "demo_src (Ptr c) (of_nat (length c)) = 40 # s"
    using a unfolding c by (simp add: unat_of_nat64 del: of_nat_Suc)
  have s63: "int (length s) < 2 ^ 63" using a unfolding c by simp
  have "demo_decompress (Ptr buf) (of_nat (length buf)) (Ptr c) (of_nat (length c))
      = (if length buf < length s then (demo_error 70, []) else (of_nat (length s), s))"
    unfolding demo_decompress_def src using a by (simp add: unat_of_nat64)
  then show "case ZSTD_decompress demo_env (Ptr buf) (of_nat (length buf)) (Ptr c)
                (of_nat (length c)) of
           (n, out) \<Rightarrow>
             if length s \<le> length buf
             then n = of_nat (length s) \<and> out = s \<and> getError demo_env n = None
             else getError demo_env n \<noteq> None
               \<and> IsDstSizeTooSmallError demo_env (getError demo_env n)"
    using demo_not_error [OF s63] demo_too_small
    by (simp add: demo_env_def demo_IsDstSizeTooSmallError_def)
next
  fix c s :: "byte list"
  assume "demo_frame c s"
  then show "case readAllReader demo_env c of (d, err) \<Rightarrow> err = None \<and> elems d = s"
    by (simp add: demo_frame_def demo_env_def demo_readAllReader_def)
qed

theorem compress_decompress_roundtrip_witness:
  "\<exists>c. snd (CompressLevel demo_env NilSlice [1, 2, 3] 5) = Inr (c, None)
      \<and> (\<exists>d. snd (Decompress demo_env NilSlice (elems c)) = Inr (d, None)
            \<and> elems d = [1, 2, 3])"
  by (rule compress_decompress_roundtrip [OF _ _ _ demo_contract])
    (simp_all add: BestSpeed_def BestCompression_def bound_formula_def)

end
